theory Spec2Isabelle
  imports Main "HOL-Library.Char_ord" "HOL-Library.List_Lexorder" "HOL-Library.Multiset"
begin

section \<open>JavaScript values used by the authorizations page\<close>

text \<open>
  The page component lives in \<^verbatim>\<open>identity/client/src/pages/authorizations/List.tsx\<close>.
  Two versions of it are verified here: the one that keeps the active tab in
  \<^verbatim>\<open>useState\<close> (called the stateful variant), and the one that derives the active tab
  from the URL on every render (called the stateless variant, names suffixed
  \<open>_stateless\<close>).

  A JavaScript expression of type \<^verbatim>\<open>T | null | undefined\<close> is a value of \<open>'a js\<close>.
  \<^verbatim>\<open>===\<close> on such values of string type is HOL equality: \<^verbatim>\<open>null !== undefined\<close>, and two
  strings are equal when their characters are.
\<close>

datatype 'a js = Undefined | Null | Val 'a

text \<open>Truthiness of a \<^verbatim>\<open>string | null | undefined\<close>: only a non-empty string is truthy.\<close>

fun truthy :: "string js \<Rightarrow> bool" where
  "truthy (Val s) = (s \<noteq> [])"
| "truthy Undefined = False"
| "truthy Null = False"

text \<open>
  \<^verbatim>\<open>xs[i]\<close> for an integer \<open>i\<close>, as the tab component reports the selected index: an
  index outside the array reads \<^verbatim>\<open>undefined\<close>.
\<close>

definition index :: "'a list \<Rightarrow> int \<Rightarrow> 'a js" where
  "index xs i = (if 0 \<le> i \<and> i < int (length xs) then Val (xs ! nat i) else Undefined)"

text \<open>\<^verbatim>\<open>xs.includes(v)\<close> for an array of strings; \<^verbatim>\<open>null\<close> and \<^verbatim>\<open>undefined\<close> are not in it.\<close>

fun array_includes :: "string list \<Rightarrow> string js \<Rightarrow> bool" where
  "array_includes xs (Val s) = (s \<in> set xs)"
| "array_includes xs Undefined = False"
| "array_includes xs Null = False"

text \<open>\<^verbatim>\<open>xs.indexOf(v)\<close>: the first position of \<open>v\<close>, or \<open>-1\<close>.\<close>

fun indexOfFrom :: "string list \<Rightarrow> string \<Rightarrow> int \<Rightarrow> int" where
  "indexOfFrom [] s k = -1"
| "indexOfFrom (x # xs) s k = (if x = s then k else indexOfFrom xs s (k + 1))"

fun indexOf :: "string list \<Rightarrow> string js \<Rightarrow> int" where
  "indexOf xs (Val s) = indexOfFrom xs s 0"
| "indexOf xs Undefined = -1"
| "indexOf xs Null = -1"

text \<open>\<^verbatim>\<open>String(v)\<close>, the conversion applied to a value stored in a query string.\<close>

fun toString :: "string js \<Rightarrow> string" where
  "toString (Val s) = s"
| "toString Undefined = ''undefined''"
| "toString Null = ''null''"


section \<open>The URL query string\<close>

text \<open>
  \<^verbatim>\<open>URLSearchParams\<close> is an ordered list of name/value pairs. \<^verbatim>\<open>get\<close> returns the first value
  stored under a name or \<^verbatim>\<open>null\<close>; \<^verbatim>\<open>set\<close> overwrites the first pair of that name and drops the
  others, or appends a pair when there is none.
\<close>

type_synonym searchParams = "(string \<times> string) list"

fun get :: "searchParams \<Rightarrow> string \<Rightarrow> string js" where
  "get [] name = Null"
| "get ((k, v) # ps) name = (if k = name then Val v else get ps name)"

fun set_param :: "searchParams \<Rightarrow> string \<Rightarrow> string \<Rightarrow> searchParams" where
  "set_param [] name v = [(name, v)]"
| "set_param ((k, w) # ps) name v =
     (if k = name then (name, v) # filter (\<lambda>p. fst p \<noteq> name) ps
      else (k, w) # set_param ps name v)"

text \<open>
  \<^verbatim>\<open>setSearchParams({ resourceType: v })\<close> builds a fresh query string with that one pair.
\<close>

definition createSearchParams :: "string js \<Rightarrow> searchParams" where
  "createSearchParams v = [(''resourceType'', toString v)]"


section \<open>Tab set derivation\<close>

text \<open>
  The enumeration \<^verbatim>\<open>ResourceType\<close> and the flag \<^verbatim>\<open>isTenantsApiEnabled\<close> are imported from
  other modules. They are parameters here: \<open>allResourceTypes\<close> is
  \<^verbatim>\<open>Object.values(ResourceType)\<close>, the string values of the members in declaration order,
  and \<open>TENANT\<close> is the value of \<^verbatim>\<open>ResourceType.TENANT\<close>.
\<close>

definition authorizationTabs :: "string list \<Rightarrow> string \<Rightarrow> bool \<Rightarrow> string list" where
  "authorizationTabs allResourceTypes TENANT isTenantsApiEnabled =
     (if \<not> isTenantsApiEnabled
      then filter (\<lambda>type. type \<noteq> TENANT) allResourceTypes
      else allResourceTypes)"

definition authorizationTabs_stateless :: "string list \<Rightarrow> string \<Rightarrow> bool \<Rightarrow> string list" where
  "authorizationTabs_stateless allResourceTypes TENANT isTenantsApiEnabled =
     (let tabs = allResourceTypes
      in if \<not> isTenantsApiEnabled
         then filter (\<lambda>type. type \<noteq> TENANT) tabs
         else tabs)"


section \<open>Active tab resolution\<close>

text \<open>
  In both variants \<open>tabs\<close> is the value of \<^verbatim>\<open>authorizationTabs\<close>. \<^verbatim>\<open>a && b\<close> is truthy
  exactly when both operands are, and the conditional only tests that.
\<close>

definition getActiveTabFromUrl :: "searchParams \<Rightarrow> string list \<Rightarrow> string js" where
  "getActiveTabFromUrl searchParams tabs =
     (let resourceTypeFromUrl = get searchParams ''resourceType'';
          isValidResourceType =
            (truthy resourceTypeFromUrl \<and> array_includes tabs resourceTypeFromUrl)
      in if isValidResourceType then resourceTypeFromUrl else index tabs 0)"

definition initialTab :: "searchParams \<Rightarrow> string list \<Rightarrow> string js" where
  "initialTab searchParams tabs =
     (let resourceTypeFromUrl = get searchParams ''resourceType'';
          isValidResourceType =
            (truthy resourceTypeFromUrl \<and> array_includes tabs resourceTypeFromUrl)
      in if isValidResourceType then resourceTypeFromUrl else index tabs 0)"

text \<open>The stateless variant: \<^verbatim>\<open>const activeTab = initialTab\<close>.\<close>

definition activeTab_stateless :: "searchParams \<Rightarrow> string list \<Rightarrow> string js" where
  "activeTab_stateless searchParams tabs = initialTab searchParams tabs"


section \<open>Presentation transform\<close>

text \<open>
  A page of the search response and an authorization record. Only the fields the component
  touches are named; every other field (\<^verbatim>\<open>...authorizationData\<close>, \<^verbatim>\<open>...item\<close>) is the
  extension part \<open>more\<close> of the record.
\<close>

record item =
  permissionTypes :: "string list"

record 'i page =
  items :: "'i list js"

text \<open>
  \<^verbatim>\<open>xs?.map(f)\<close>: \<^verbatim>\<open>undefined\<close> when \<open>xs\<close> is \<^verbatim>\<open>null\<close> or \<^verbatim>\<open>undefined\<close>.
\<close>

fun optional_map :: "('a \<Rightarrow> 'b) \<Rightarrow> 'a list js \<Rightarrow> 'b list js" where
  "optional_map f (Val xs) = Val (map f xs)"
| "optional_map f Undefined = Undefined"
| "optional_map f Null = Undefined"

text \<open>
  \<^verbatim>\<open>[...xs].sort()\<close> on strings: the default comparison orders strings by their code units,
  a prefix before its extensions. That is the order of \<open>string\<close> here, and \<open>sort\<close> returns
  the one sorted arrangement of the elements. The function is the same text in both variants.
\<close>

definition sortPermissionTypesAlphabetically ::
    "('a item_scheme, 'b) page_scheme js \<Rightarrow> ('a item_scheme, 'b) page_scheme js" where
  "sortPermissionTypesAlphabetically authorizationData =
     (case authorizationData of
        Val d \<Rightarrow>
          Val (d\<lparr>items :=
                 optional_map (\<lambda>item. item\<lparr>permissionTypes := sort (permissionTypes item)\<rparr>)
                   (items d)\<rparr>)
      | Undefined \<Rightarrow> Undefined
      | Null \<Rightarrow> Null)"


section \<open>The transform on a store of objects\<close>

text \<open>
  To speak about mutation the same function is run on an explicit store. An address is a
  position in the store; allocation appends. A page object holds a reference to its items
  array (or \<^verbatim>\<open>null\<close>/\<^verbatim>\<open>undefined\<close>), an item object a reference to its array of permission
  types, and each keeps its other fields by value. \<open>None\<close> is returned when an address does
  not hold the kind of object the TypeScript types promise.
\<close>

type_synonym addr = nat

datatype ('i, 'p) obj =
    StrArray "string list"
  | ItemObj addr 'i
  | ItemArray "addr list"
  | PageObj "addr js" 'p

type_synonym ('i, 'p) heap = "('i, 'p) obj list"

definition lookup :: "('i, 'p) heap \<Rightarrow> addr \<Rightarrow> ('i, 'p) obj option" where
  "lookup h a = (if a < length h then Some (h ! a) else None)"

definition alloc :: "('i, 'p) heap \<Rightarrow> ('i, 'p) obj \<Rightarrow> ('i, 'p) heap \<times> addr" where
  "alloc h ob = (h @ [ob], length h)"

text \<open>
  The callback of \<^verbatim>\<open>map\<close>: \<^verbatim>\<open>[...item.permissionTypes]\<close> allocates a copy, \<^verbatim>\<open>.sort()\<close> sorts that
  copy in place and returns it, and the object literal allocates the new item.
\<close>

definition sortItem :: "('i, 'p) heap \<Rightarrow> addr \<Rightarrow> (('i, 'p) heap \<times> addr) option" where
  "sortItem h r =
     (case lookup h r of
        Some (ItemObj pt rest) \<Rightarrow>
          (case lookup h pt of
             Some (StrArray xs) \<Rightarrow>
               (let (h1, c) = alloc h (StrArray xs);
                    h2 = h1[c := StrArray (sort xs)];
                    (h3, r') = alloc h2 (ItemObj c rest)
                in Some (h3, r'))
           | _ \<Rightarrow> None)
      | _ \<Rightarrow> None)"

fun mapItems :: "('i, 'p) heap \<Rightarrow> addr list \<Rightarrow> (('i, 'p) heap \<times> addr list) option" where
  "mapItems h [] = Some (h, [])"
| "mapItems h (r # rs) =
     (case sortItem h r of
        None \<Rightarrow> None
      | Some (h1, r') \<Rightarrow>
          (case mapItems h1 rs of
             None \<Rightarrow> None
           | Some (h2, rs') \<Rightarrow> Some (h2, r' # rs')))"

definition sortPermissionTypesAlphabetically_heap ::
    "('i, 'p) heap \<Rightarrow> addr js \<Rightarrow> (('i, 'p) heap \<times> addr js) option" where
  "sortPermissionTypesAlphabetically_heap h authorizationData =
     (case authorizationData of
        Val p \<Rightarrow>
          (case lookup h p of
             Some (PageObj its rest) \<Rightarrow>
               (case its of
                  Val a \<Rightarrow>
                    (case lookup h a of
                       Some (ItemArray rs) \<Rightarrow>
                         (case mapItems h rs of
                            Some (h1, rs') \<Rightarrow>
                              (let (h2, a') = alloc h1 (ItemArray rs');
                                   (h3, p') = alloc h2 (PageObj (Val a') rest)
                               in Some (h3, Val p'))
                          | None \<Rightarrow> None)
                     | _ \<Rightarrow> None)
                | _ \<Rightarrow>
                    (let (h1, p') = alloc h (PageObj Undefined rest)
                     in Some (h1, Val p')))
           | _ \<Rightarrow> None)
      | Undefined \<Rightarrow> Some (h, Undefined)
      | Null \<Rightarrow> Some (h, Null))"

text \<open>Reading the value an address denotes; \<open>None\<close> when the store is ill-typed there.\<close>

definition readItem :: "('i, 'p) heap \<Rightarrow> addr \<Rightarrow> 'i item_scheme option" where
  "readItem h r =
     (case lookup h r of
        Some (ItemObj pt rest) \<Rightarrow>
          (case lookup h pt of
             Some (StrArray xs) \<Rightarrow> Some \<lparr>permissionTypes = xs, \<dots> = rest\<rparr>
           | _ \<Rightarrow> None)
      | _ \<Rightarrow> None)"

fun readItems :: "('i, 'p) heap \<Rightarrow> addr list \<Rightarrow> 'i item_scheme list option" where
  "readItems h [] = Some []"
| "readItems h (r # rs) =
     (case readItem h r of
        None \<Rightarrow> None
      | Some v \<Rightarrow> (case readItems h rs of None \<Rightarrow> None | Some vs \<Rightarrow> Some (v # vs)))"

definition readPage :: "('i, 'p) heap \<Rightarrow> addr \<Rightarrow> ('i item_scheme, 'p) page_scheme option" where
  "readPage h p =
     (case lookup h p of
        Some (PageObj its rest) \<Rightarrow>
          (case its of
             Val a \<Rightarrow>
               (case lookup h a of
                  Some (ItemArray rs) \<Rightarrow>
                    (case readItems h rs of
                       Some vs \<Rightarrow> Some \<lparr>items = Val vs, \<dots> = rest\<rparr>
                     | None \<Rightarrow> None)
                | _ \<Rightarrow> None)
           | Undefined \<Rightarrow> Some \<lparr>items = Undefined, \<dots> = rest\<rparr>
           | Null \<Rightarrow> Some \<lparr>items = Null, \<dots> = rest\<rparr>)
      | _ \<Rightarrow> None)"


section \<open>Calls to collaborators, handlers and effects\<close>

text \<open>
  What a handler or an effect does is the list of calls it makes, in order, to the state
  setter of \<^verbatim>\<open>useState\<close>, to the router's \<^verbatim>\<open>setSearchParams\<close> and to the pagination hook.
  The second argument of \<^verbatim>\<open>setSearchParams\<close> is \<open>None\<close> when the call passes none; the router
  replaces the current history entry when it is given \<^verbatim>\<open>{ replace: true }\<close> and pushes a new
  entry otherwise.
\<close>

record navigateOptions =
  replace :: bool

datatype call =
    SetActiveTab "string js"
  | SetSearchParams searchParams "navigateOptions option"
  | ResetPagination

datatype navigation = Push | Replace

fun navigationOf :: "navigateOptions option \<Rightarrow> navigation" where
  "navigationOf None = Push"
| "navigationOf (Some opts) = (if replace opts then Replace else Push)"

fun isUrlWrite :: "call \<Rightarrow> bool" where
  "isUrlWrite (SetSearchParams ps opts) = True"
| "isUrlWrite (SetActiveTab v) = False"
| "isUrlWrite ResetPagination = False"

fun usesReplace :: "call \<Rightarrow> bool" where
  "usesReplace (SetSearchParams ps opts) = (navigationOf opts = Replace)"
| "usesReplace (SetActiveTab v) = False"
| "usesReplace ResetPagination = False"

subsection \<open>Stateful variant\<close>

text \<open>The effect "Sync activeTab state with URL changes".\<close>

definition syncActiveTabEffect :: "searchParams \<Rightarrow> string list \<Rightarrow> string js \<Rightarrow> call list" where
  "syncActiveTabEffect searchParams tabs activeTab =
     (let tabFromUrl = getActiveTabFromUrl searchParams tabs
      in if tabFromUrl \<noteq> activeTab then [SetActiveTab tabFromUrl] else [])"

text \<open>The effect "Ensure the URL always reflects the current active tab".\<close>

definition urlSyncEffect :: "searchParams \<Rightarrow> string js \<Rightarrow> call list" where
  "urlSyncEffect searchParams activeTab =
     (let resourceTypeFromUrl = get searchParams ''resourceType''
      in if resourceTypeFromUrl \<noteq> activeTab
         then (let newSearchParams = set_param searchParams ''resourceType'' (toString activeTab)
               in [SetSearchParams newSearchParams (Some \<lparr>replace = True\<rparr>)])
         else [])"

text \<open>The effect "Reset pagination when activeTab changes".\<close>

definition resetPaginationEffect :: "call list" where
  "resetPaginationEffect = [ResetPagination]"

definition handleTabChange :: "string list \<Rightarrow> int \<Rightarrow> call list" where
  "handleTabChange tabs selectedIndex =
     (let newTab = index tabs selectedIndex
      in [SetActiveTab newTab])"

subsection \<open>Stateless variant\<close>

definition urlSyncEffect_stateless :: "string js \<Rightarrow> string js \<Rightarrow> call list" where
  "urlSyncEffect_stateless resourceTypeFromUrl activeTab =
     (if resourceTypeFromUrl \<noteq> activeTab
      then [SetSearchParams (createSearchParams activeTab) (Some \<lparr>replace = True\<rparr>)]
      else [])"

definition handleTabChange_stateless :: "string list \<Rightarrow> int \<Rightarrow> call list" where
  "handleTabChange_stateless tabs selectedIndex =
     (let newTab = index tabs selectedIndex
      in [ResetPagination, SetSearchParams (createSearchParams newTab) None])"


section \<open>Rendering\<close>

text \<open>
  The result of \<^verbatim>\<open>usePaginatedApi\<close>. The functions \<open>reload\<close> and \<open>resetPagination\<close> are values
  of an arbitrary type \<open>'h\<close> of handlers.
\<close>

record ('d, 'h, 'pp) paginatedApi =
  data :: "'d js"
  loading :: bool
  reload :: 'h
  success :: bool
  resetPagination :: 'h
  paginationProps :: 'pp

text \<open>
  The elements the component returns, with the props it passes: \<open>PageHeader title\<close>,
  \<open>TabsTitle text\<close>, \<open>TabsVertical selectedIndex onChange ariaLabel tabs panels\<close> where
  \<open>tabs\<close> are the keyed \<^verbatim>\<open>Tab\<close> labels, \<open>AuthorizationList tab data loading reload
  paginationProps\<close>, and \<open>TranslatedErrorInlineNotification title label onClick\<close> where
  \<open>label\<close> and \<open>onClick\<close> are the two fields of \<^verbatim>\<open>actionButton\<close>. The header's link text
  and documentation path are left out.
\<close>

datatype ('d, 'h, 'pp) element =
    PageHeader string
  | TabsTitle string
  | TabsVertical int "int \<Rightarrow> call list" string "(string \<times> string) list"
      "('d, 'h, 'pp) element list"
  | AuthorizationList string "'d js" bool 'h 'pp
  | TranslatedErrorInlineNotification string string 'h

text \<open>
  \<open>t\<close> is the translation function of \<^verbatim>\<open>useTranslate("authorizations")\<close>.
  \<^verbatim>\<open>{c && <X/>}\<close> renders \<open>X\<close> when \<open>c\<close> holds and nothing otherwise.
\<close>

definition render ::
    "(string \<Rightarrow> string) \<Rightarrow> string list \<Rightarrow> string js \<Rightarrow>
     (('a item_scheme, 'b) page_scheme, 'h, 'pp) paginatedApi \<Rightarrow>
     (('a item_scheme, 'b) page_scheme, 'h, 'pp) element list" where
  "render t tabs activeTab api =
     (let transformedData = sortPermissionTypesAlphabetically (data api)
      in [PageHeader (t ''authorizations''),
          TabsTitle (t ''resourceType''),
          TabsVertical (indexOf tabs activeTab) (handleTabChange tabs) (t ''authorizationType'')
            (map (\<lambda>tab. (tab, t tab)) tabs)
            (map (\<lambda>tab. AuthorizationList tab transformedData (loading api) (reload api)
                          (paginationProps api)) tabs)]
         @ (if \<not> loading api \<and> \<not> success api
            then [TranslatedErrorInlineNotification (t ''authorizationLoadError'') (t ''retry'')
                    (reload api)]
            else []))"

definition render_stateless ::
    "(string \<Rightarrow> string) \<Rightarrow> string list \<Rightarrow> string js \<Rightarrow>
     (('a item_scheme, 'b) page_scheme, 'h, 'pp) paginatedApi \<Rightarrow>
     (('a item_scheme, 'b) page_scheme, 'h, 'pp) element list" where
  "render_stateless t tabs activeTab api =
     (let transformedData = sortPermissionTypesAlphabetically (data api)
      in [PageHeader (t ''authorizations''),
          TabsTitle (t ''resourceType''),
          TabsVertical (indexOf tabs activeTab) (handleTabChange_stateless tabs)
            (t ''authorizationType'')
            (map (\<lambda>tab. (tab, t tab)) tabs)
            (map (\<lambda>tab. AuthorizationList tab transformedData (loading api) (reload api)
                          (paginationProps api)) tabs)]
         @ (if \<not> loading api \<and> \<not> success api
            then [TranslatedErrorInlineNotification (t ''authorizationLoadError'') (t ''retry'')
                    (reload api)]
            else []))"

text \<open>
  Modelled from the spec: the notification component
  (\<^verbatim>\<open>src/components/notifications/InlineNotification\<close>) is not part of the sources. The spec
  says its retry button is bound to the handler it is given and that a click calls that
  handler once. A handler is a transformer of the collaborator's state; a click on an
  element without a retry button does nothing.
\<close>

fun click_retry :: "('d, 's \<Rightarrow> 's, 'pp) element \<Rightarrow> 's \<Rightarrow> 's" where
  "click_retry (TranslatedErrorInlineNotification title label onClick) s = onClick s"
| "click_retry (PageHeader title) s = s"
| "click_retry (TabsTitle text) s = s"
| "click_retry (TabsVertical i h a ts ps) s = s"
| "click_retry (AuthorizationList tab d l r pp) s = s"

fun isErrorNotification :: "('d, 'h, 'pp) element \<Rightarrow> bool" where
  "isErrorNotification (TranslatedErrorInlineNotification title label onClick) = True"
| "isErrorNotification (PageHeader title) = False"
| "isErrorNotification (TabsTitle text) = False"
| "isErrorNotification (TabsVertical i h a ts ps) = False"
| "isErrorNotification (AuthorizationList tab d l r pp) = False"


section \<open>Render passes\<close>

text \<open>
  \<^verbatim>\<open>useEffect(f, deps)\<close> runs \<open>f\<close> after the first render and after every render in which a
  dependency differs from its value at the previous render; the effects of one render run
  in the order they are declared, each with the values of that render. \<open>prev\<close> holds
  the query string and the active tab of the previous render, \<open>None\<close> before the first.
  \<^verbatim>\<open>authorizationTabs\<close> is memoised with no dependencies and never changes;
  \<^verbatim>\<open>getActiveTabFromUrl\<close> changes with \<^verbatim>\<open>searchParams\<close>. Whether the identities of
  \<^verbatim>\<open>resetPagination\<close> and \<^verbatim>\<open>setSearchParams\<close> changed is given by a flag.
\<close>

definition effects ::
    "string list \<Rightarrow> (searchParams \<times> string js) option \<Rightarrow> bool \<Rightarrow> bool \<Rightarrow> searchParams
     \<Rightarrow> string js \<Rightarrow> call list" where
  "effects tabs prev resetPaginationChanged setSearchParamsChanged searchParams activeTab =
     (let searchParamsChanged =
            (case prev of None \<Rightarrow> True | Some (sp, a) \<Rightarrow> sp \<noteq> searchParams);
          activeTabChanged =
            (case prev of None \<Rightarrow> True | Some (sp, a) \<Rightarrow> a \<noteq> activeTab)
      in (if searchParamsChanged \<or> activeTabChanged
          then syncActiveTabEffect searchParams tabs activeTab else [])
       @ (if activeTabChanged \<or> searchParamsChanged \<or> setSearchParamsChanged
          then urlSyncEffect searchParams activeTab else [])
       @ (if activeTabChanged \<or> resetPaginationChanged
          then resetPaginationEffect else []))"

definition effects_stateless ::
    "string list \<Rightarrow> (searchParams \<times> string js) option \<Rightarrow> bool \<Rightarrow> searchParams \<Rightarrow> call list" where
  "effects_stateless tabs prev setSearchParamsChanged searchParams =
     (let resourceTypeFromUrl = get searchParams ''resourceType'';
          activeTab = activeTab_stateless searchParams tabs;
          changed =
            (case prev of
               None \<Rightarrow> True
             | Some (sp, a) \<Rightarrow>
                 a \<noteq> activeTab \<or> get sp ''resourceType'' \<noteq> resourceTypeFromUrl
                 \<or> setSearchParamsChanged)
      in if changed then urlSyncEffect_stateless resourceTypeFromUrl activeTab else [])"

text \<open>
  Modelled from the spec: the pagination hook \<^verbatim>\<open>usePaginatedApi\<close> (\<^verbatim>\<open>src/utility/api\<close>) is
  not part of the sources. The spec says it owns the pagination state, that
  \<^verbatim>\<open>resetPagination\<close> returns to the first page, and that the query is parameterised by the
  active tab. \<open>page\<close> is the hook's current page, the first page being \<open>0\<close>. The other
  fields are the component in its environment: the query string the router shows, the
  \<^verbatim>\<open>useState\<close> cell (unused by the stateless variant), and the dependency values of the last
  render.
\<close>

record world =
  url :: searchParams
  activeTabState :: "string js"
  page :: nat
  previous :: "(searchParams \<times> string js) option"

text \<open>
  State updates requested during a render pass take effect before the next one: the state
  setter stores its argument, the router shows the query string it was given.
\<close>

fun apply_call :: "world \<Rightarrow> call \<Rightarrow> world" where
  "apply_call w (SetActiveTab v) = w\<lparr>activeTabState := v\<rparr>"
| "apply_call w (SetSearchParams ps opts) = w\<lparr>url := ps\<rparr>"
| "apply_call w ResetPagination = w\<lparr>page := 0\<rparr>"

definition apply_calls :: "world \<Rightarrow> call list \<Rightarrow> world" where
  "apply_calls w cs = foldl apply_call w cs"

text \<open>First render of the stateful variant: \<^verbatim>\<open>useState(getActiveTabFromUrl())\<close>.\<close>

definition mount :: "string list \<Rightarrow> searchParams \<Rightarrow> world" where
  "mount tabs ps =
     \<lparr>url = ps, activeTabState = getActiveTabFromUrl ps tabs, page = 0, previous = None\<rparr>"

definition mount_stateless :: "searchParams \<Rightarrow> world" where
  "mount_stateless ps = \<lparr>url = ps, activeTabState = Undefined, page = 0, previous = None\<rparr>"

text \<open>
  One render followed by its effects, in each variant. Between two passes the functions of
  the hook and of the router keep their identities.
\<close>

definition pass_calls :: "string list \<Rightarrow> world \<Rightarrow> call list" where
  "pass_calls tabs w = effects tabs (previous w) False False (url w) (activeTabState w)"

definition pass :: "string list \<Rightarrow> world \<Rightarrow> world" where
  "pass tabs w =
     apply_calls (w\<lparr>previous := Some (url w, activeTabState w)\<rparr>) (pass_calls tabs w)"

definition pass_calls_stateless :: "string list \<Rightarrow> world \<Rightarrow> call list" where
  "pass_calls_stateless tabs w = effects_stateless tabs (previous w) False (url w)"

definition pass_stateless :: "string list \<Rightarrow> world \<Rightarrow> world" where
  "pass_stateless tabs w =
     apply_calls (w\<lparr>previous := Some (url w, activeTab_stateless (url w) tabs)\<rparr>)
       (pass_calls_stateless tabs w)"

text \<open>
  A router may also show a new query string only after the render that the state update
  causes. \<open>pass_deferring\<close> is a render pass whose URL writes have not arrived yet, and
  \<open>round_deferred\<close> is that pass, the render pass the state update causes, and then the
  arrival of the URL writes.
\<close>

definition pass_deferring :: "string list \<Rightarrow> world \<Rightarrow> world" where
  "pass_deferring tabs w =
     apply_calls (w\<lparr>previous := Some (url w, activeTabState w)\<rparr>)
       (filter (\<lambda>c. \<not> isUrlWrite c) (pass_calls tabs w))"

definition round_deferred :: "string list \<Rightarrow> world \<Rightarrow> world" where
  "round_deferred tabs w =
     apply_calls (pass tabs (pass_deferring tabs w)) (filter isUrlWrite (pass_calls tabs w))"

text \<open>
  Modelled from the spec: the query the pagination hook is asked for in a render of the
  stateless variant, that is the filter \<^verbatim>\<open>{ resourceType: activeTab }\<close> the component passes
  and the hook's current page.
\<close>

definition query_stateless :: "string list \<Rightarrow> world \<Rightarrow> string js \<times> nat" where
  "query_stateless tabs w = (activeTab_stateless (url w) tabs, page w)"

text \<open>
  Events from outside: a tab selection, a change of the URL by the browser (back, forward,
  an edited address), and a move of the list to another page.
\<close>

definition select_tab :: "string list \<Rightarrow> int \<Rightarrow> world \<Rightarrow> world" where
  "select_tab tabs selectedIndex w = apply_calls w (handleTabChange tabs selectedIndex)"

definition select_tab_stateless :: "string list \<Rightarrow> int \<Rightarrow> world \<Rightarrow> world" where
  "select_tab_stateless tabs selectedIndex w =
     apply_calls w (handleTabChange_stateless tabs selectedIndex)"

definition browser_navigates :: "searchParams \<Rightarrow> world \<Rightarrow> world" where
  "browser_navigates ps w = w\<lparr>url := ps\<rparr>"

definition go_to_page :: "nat \<Rightarrow> world \<Rightarrow> world" where
  "go_to_page n w = w\<lparr>page := n\<rparr>"


text \<open>
  A world of the stateful variant drifts when its state and the URL name two different
  members of the tab set and a render is due, because the URL or the state differs from
  what the last render saw.
\<close>

definition drift :: "string list \<Rightarrow> world \<Rightarrow> bool" where
  "drift tabs w =
     (truthy (activeTabState w) \<and> array_includes tabs (activeTabState w)
      \<and> truthy (get (url w) ''resourceType'')
      \<and> array_includes tabs (get (url w) ''resourceType'')
      \<and> get (url w) ''resourceType'' \<noteq> activeTabState w
      \<and> previous w \<noteq> Some (url w, activeTabState w))"

subsection \<open>Two concrete runs\<close>

text \<open>
  An enumeration of three resource types with the tenant flag enabled. In the first run
  the stateful variant is opened on \<^verbatim>\<open>?resourceType=AUTHORIZATION\<close>, rendered once, and the
  user selects the third tab. In the second run the stateless variant is opened on the same
  URL, rendered once, the list is moved to its fourth page, and the browser goes to
  \<^verbatim>\<open>?resourceType=USER\<close>.
\<close>

definition example_tabs :: "string list" where
  "example_tabs = [''AUTHORIZATION'', ''TENANT'', ''USER'']"

definition after_selection :: world where
  "after_selection =
     select_tab example_tabs 2
       (pass example_tabs (mount example_tabs [(''resourceType'', ''AUTHORIZATION'')]))"

definition after_navigation_stateless :: world where
  "after_navigation_stateless =
     browser_navigates [(''resourceType'', ''USER'')]
       (go_to_page 3
          (pass_stateless example_tabs
             (mount_stateless [(''resourceType'', ''AUTHORIZATION'')])))"


section \<open>Helper lemmas\<close>

lemma index_0: "tabs \<noteq> [] \<Longrightarrow> index tabs 0 = Val (hd tabs)"
  by (cases tabs) (simp_all add: index_def)

lemma count_list_distinct: "distinct xs \<Longrightarrow> x \<in> set xs \<Longrightarrow> count_list xs x = 1"
  by (induction xs) auto

lemma count_list_filter: "count_list (filter P xs) x = (if P x then count_list xs x else 0)"
  by (induction xs) auto


section \<open>Active tab resolution and tab set\<close>

text \<open>
  C1. For a non-empty tab set whose members are non-empty strings (the values of a string
  enumeration), the resolution returns the \<^verbatim>\<open>resourceType\<close> parameter when it is present and
  a member of the tab set, and the first tab when the parameter is absent or not a member.
  The result is always a member of the tab set. The stateless variant's \<open>initialTab\<close>
  computes the same value.
\<close>

theorem getActiveTabFromUrl_resolves:
  assumes "tabs \<noteq> []" and "[] \<notin> set tabs"
  shows "(array_includes tabs (get searchParams ''resourceType'') \<longrightarrow>
            getActiveTabFromUrl searchParams tabs = get searchParams ''resourceType'')
       \<and> (\<not> array_includes tabs (get searchParams ''resourceType'') \<longrightarrow>
            getActiveTabFromUrl searchParams tabs = Val (hd tabs))
       \<and> array_includes tabs (getActiveTabFromUrl searchParams tabs)
       \<and> initialTab searchParams tabs = getActiveTabFromUrl searchParams tabs"
proof (cases "get searchParams ''resourceType''")
  case (Val s)
  with assms show ?thesis
    by (auto simp: getActiveTabFromUrl_def initialTab_def index_0)
next
  case Undefined
  with assms show ?thesis
    by (simp add: getActiveTabFromUrl_def initialTab_def index_0)
next
  case Null
  with assms show ?thesis
    by (simp add: getActiveTabFromUrl_def initialTab_def index_0)
qed

theorem getActiveTabFromUrl_resolves_witness:
  "[''AUTHORIZATION'', ''TENANT'', ''USER''] \<noteq> []
   \<and> [] \<notin> set [''AUTHORIZATION'', ''TENANT'', ''USER'']
   \<and> getActiveTabFromUrl [(''resourceType'', ''USER'')] [''AUTHORIZATION'', ''TENANT'', ''USER'']
       = Val ''USER''
   \<and> getActiveTabFromUrl [(''resourceType'', ''UNKNOWN'')] [''AUTHORIZATION'', ''TENANT'', ''USER'']
       = Val ''AUTHORIZATION''
   \<and> getActiveTabFromUrl [] [''AUTHORIZATION'', ''TENANT'', ''USER''] = Val ''AUTHORIZATION''"
  using
    getActiveTabFromUrl_resolves
      [of "[''AUTHORIZATION'', ''TENANT'', ''USER'']" "[(''resourceType'', ''USER'')]"]
    getActiveTabFromUrl_resolves
      [of "[''AUTHORIZATION'', ''TENANT'', ''USER'']" "[(''resourceType'', ''UNKNOWN'')]"]
    getActiveTabFromUrl_resolves [of "[''AUTHORIZATION'', ''TENANT'', ''USER'']" "[]"]
  by simp

text \<open>
  C2. When the members of the enumeration have distinct values: with the tenant flag enabled
  the tab set is the enumeration in its order; with the flag disabled it is the enumeration
  with the tenant member taken out and the order of the others kept, and nothing is removed
  when the enumeration has no tenant member. Every member appears once when the flag is
  enabled, and every member other than tenant appears once when it is disabled. Both variants
  derive the same tab set.
\<close>

theorem authorizationTabs_derivation:
  assumes "distinct allResourceTypes"
  shows "authorizationTabs allResourceTypes TENANT True = allResourceTypes
       \<and> (allResourceTypes = xs @ TENANT # ys \<longrightarrow>
            authorizationTabs allResourceTypes TENANT False = xs @ ys)
       \<and> (TENANT \<notin> set allResourceTypes \<longrightarrow>
            authorizationTabs allResourceTypes TENANT False = allResourceTypes)
       \<and> TENANT \<notin> set (authorizationTabs allResourceTypes TENANT False)
       \<and> (\<forall>x \<in> set allResourceTypes.
            count_list (authorizationTabs allResourceTypes TENANT True) x = 1)
       \<and> (\<forall>x \<in> set allResourceTypes. x \<noteq> TENANT \<longrightarrow>
            count_list (authorizationTabs allResourceTypes TENANT False) x = 1)
       \<and> authorizationTabs_stateless allResourceTypes TENANT enabled =
           authorizationTabs allResourceTypes TENANT enabled"
proof -
  have a: "allResourceTypes = xs @ TENANT # ys \<Longrightarrow>
      filter (\<lambda>type. type \<noteq> TENANT) allResourceTypes = xs @ ys"
  proof -
    assume e: "allResourceTypes = xs @ TENANT # ys"
    with assms have "TENANT \<notin> set xs" and "TENANT \<notin> set ys" by auto
    then have "filter (\<lambda>type. type \<noteq> TENANT) xs = xs"
      and "filter (\<lambda>type. type \<noteq> TENANT) ys = ys"
      by (auto simp: filter_id_conv)
    with e show ?thesis by simp
  qed
  have b: "TENANT \<notin> set allResourceTypes \<Longrightarrow>
      filter (\<lambda>type. type \<noteq> TENANT) allResourceTypes = allResourceTypes"
    by (auto simp: filter_id_conv)
  have c: "\<And>x. x \<in> set allResourceTypes \<Longrightarrow> count_list allResourceTypes x = 1"
    using assms by (simp add: count_list_distinct)
  have d: "\<And>x. x \<in> set allResourceTypes \<Longrightarrow> x \<noteq> TENANT \<Longrightarrow>
      count_list (filter (\<lambda>type. type \<noteq> TENANT) allResourceTypes) x = 1"
    using assms by (simp add: count_list_distinct count_list_filter)
  show ?thesis
    using a b c d by (simp add: authorizationTabs_def authorizationTabs_stateless_def)
qed

theorem authorizationTabs_derivation_witness:
  "distinct [''AUTHORIZATION'', ''TENANT'', ''USER'']
   \<and> authorizationTabs [''AUTHORIZATION'', ''TENANT'', ''USER''] ''TENANT'' True
       = [''AUTHORIZATION'', ''TENANT'', ''USER'']
   \<and> authorizationTabs [''AUTHORIZATION'', ''TENANT'', ''USER''] ''TENANT'' False
       = [''AUTHORIZATION'', ''USER'']
   \<and> count_list (authorizationTabs [''AUTHORIZATION'', ''TENANT'', ''USER''] ''TENANT'' False)
        ''USER'' = 1"
  using authorizationTabs_derivation
    [of "[''AUTHORIZATION'', ''TENANT'', ''USER'']" "''TENANT''" "[''AUTHORIZATION'']"
        "[''USER'']" False]
  by simp

text \<open>
  C9. For every query string and every value of the tenant flag, the active tab the
  stateless variant derives is the initial value of the stateful variant's state.
\<close>

theorem variants_agree:
  "activeTab_stateless searchParams (authorizationTabs_stateless allResourceTypes TENANT enabled)
     = activeTabState (mount (authorizationTabs allResourceTypes TENANT enabled) searchParams)"
  by (simp add: activeTab_stateless_def initialTab_def getActiveTabFromUrl_def mount_def
      authorizationTabs_def authorizationTabs_stateless_def)



section \<open>Presentation transform: result\<close>

text \<open>
  C3. Absent input is returned as it is. For a present page the result is a page whose other
  fields are those of the input and whose items, when the input has an items list, are as
  many records as the input has, each with its other fields kept and with a permission-type
  list that is sorted and has the same elements as the input record's list. A page without
  an items list gets \<^verbatim>\<open>undefined\<close> items. The list \<^verbatim>\<open>["WRITE","READ","CREATE"]\<close> becomes
  \<^verbatim>\<open>["CREATE","READ","WRITE"]\<close>.
\<close>

theorem sortPermissionTypesAlphabetically_sorts:
  "sortPermissionTypesAlphabetically Undefined = Undefined
   \<and> sortPermissionTypesAlphabetically Null = Null
   \<and> (\<exists>d'. sortPermissionTypesAlphabetically (Val d) = Val d'
        \<and> page.more d' = page.more d
        \<and> (items d = Undefined \<or> items d = Null \<longrightarrow> items d' = Undefined)
        \<and> (\<forall>xs. items d = Val xs \<longrightarrow>
              (\<exists>ys. items d' = Val ys \<and> length ys = length xs
                 \<and> (\<forall>k < length xs.
                       sorted (permissionTypes (ys ! k))
                     \<and> mset (permissionTypes (ys ! k)) = mset (permissionTypes (xs ! k))
                     \<and> item.more (ys ! k) = item.more (xs ! k)))))
   \<and> sortPermissionTypesAlphabetically
        (Val \<lparr>items = Val [\<lparr>permissionTypes = [''WRITE'', ''READ'', ''CREATE''], \<dots> = m\<rparr>],
              \<dots> = n\<rparr>)
      = Val \<lparr>items = Val [\<lparr>permissionTypes = [''CREATE'', ''READ'', ''WRITE''], \<dots> = m\<rparr>],
             \<dots> = n\<rparr>"
  by (auto simp: sortPermissionTypesAlphabetically_def)

theorem sortPermissionTypesAlphabetically_sorts_witness:
  "sortPermissionTypesAlphabetically
     (Val \<lparr>items = Val [\<lparr>permissionTypes = [''UPDATE'', ''DELETE'']\<rparr>,
                        \<lparr>permissionTypes = [''READ'']\<rparr>]\<rparr>)
   = Val \<lparr>items = Val [\<lparr>permissionTypes = [''DELETE'', ''UPDATE'']\<rparr>,
                      \<lparr>permissionTypes = [''READ'']\<rparr>]\<rparr>
   \<and> sorted [''DELETE'', ''UPDATE'']"
  using sortPermissionTypesAlphabetically_sorts
    [of "\<lparr>items = Val [\<lparr>permissionTypes = [''UPDATE'', ''DELETE'']\<rparr>,
                       \<lparr>permissionTypes = [''READ'']\<rparr>]\<rparr>"]
  by (simp add: sortPermissionTypesAlphabetically_def)


section \<open>Error notification\<close>

lemma funpow_click_retry:
  "(click_retry (TranslatedErrorInlineNotification title label h) ^^ k) s = (h ^^ k) s"
proof -
  have e: "click_retry (TranslatedErrorInlineNotification title label h) = h"
    by (rule ext) simp
  show ?thesis by (simp only: e)
qed

text \<open>
  C5. In both variants the rendered elements contain an error notification exactly when
  \<open>loading\<close> and \<open>success\<close> are both false; there is then one, with the translated title
  and retry label, and its click handler is the \<open>reload\<close> function of the pagination hook.
  Hence \<open>k\<close> clicks on it act on the collaborator as \<open>k\<close> calls of \<open>reload\<close>.
\<close>

theorem error_notification_rendered:
  "filter isErrorNotification (render t tabs activeTab api) =
     (if \<not> loading api \<and> \<not> success api
      then [TranslatedErrorInlineNotification (t ''authorizationLoadError'') (t ''retry'')
              (reload api)]
      else [])
   \<and> filter isErrorNotification (render_stateless t tabs activeTab api) =
     (if \<not> loading api \<and> \<not> success api
      then [TranslatedErrorInlineNotification (t ''authorizationLoadError'') (t ''retry'')
              (reload api)]
      else [])
   \<and> (\<forall>e \<in> set (render t tabs activeTab api) \<union> set (render_stateless t tabs activeTab api).
         isErrorNotification e \<longrightarrow> (click_retry e ^^ k) s = (reload api ^^ k) s)"
  by (auto simp: render_def render_stateless_def Let_def funpow_click_retry)

theorem error_notification_rendered_witness:
  "filter isErrorNotification
     (render (\<lambda>key. key) [''AUTHORIZATION'', ''USER''] (Val ''USER'')
        \<lparr>data = (Null :: item page js), loading = False, reload = Suc, success = False,
         resetPagination = (\<lambda>n. 0), paginationProps = ()\<rparr>)
     = [TranslatedErrorInlineNotification ''authorizationLoadError'' ''retry'' Suc]
   \<and> (click_retry (TranslatedErrorInlineNotification ''authorizationLoadError'' ''retry'' Suc) ^^ 3)
        (0::nat) = 3
   \<and> filter isErrorNotification
     (render (\<lambda>key. key) [''AUTHORIZATION'', ''USER''] (Val ''USER'')
        \<lparr>data = (Null :: item page js), loading = True, reload = Suc, success = False,
         resetPagination = (\<lambda>n. 0), paginationProps = ()\<rparr>) = []"
  using error_notification_rendered
    [of "\<lambda>key. key" "[''AUTHORIZATION'', ''USER'']" "Val ''USER''"
        "\<lparr>data = (Null :: item page js), loading = False, reload = Suc, success = False,
         resetPagination = (\<lambda>n. 0), paginationProps = ()\<rparr>" 3 "0::nat"]
   error_notification_rendered
    [of "\<lambda>key. key" "[''AUTHORIZATION'', ''USER'']" "Val ''USER''"
        "\<lparr>data = (Null :: item page js), loading = True, reload = Suc, success = False,
         resetPagination = (\<lambda>n. 0), paginationProps = ()\<rparr>" 3 "0::nat"]
  by (simp add: numeral_3_eq_3)


section \<open>The transform does not mutate its input\<close>

lemma lookup_append: "lookup h a = Some ob \<Longrightarrow> lookup (h @ e) a = Some ob"
  by (auto simp: lookup_def nth_append split: if_splits)

lemma readItem_append: "readItem h r = Some v \<Longrightarrow> readItem (h @ e) r = Some v"
  by (auto simp: readItem_def lookup_append split: option.splits obj.splits)

lemma readItems_append: "readItems h rs = Some vs \<Longrightarrow> readItems (h @ e) rs = Some vs"
  by (induction rs arbitrary: vs) (auto simp: readItem_append split: option.splits)

lemma readPage_append: "readPage h p = Some pg \<Longrightarrow> readPage (h @ e) p = Some pg"
  by (auto simp: readPage_def lookup_append readItems_append
      split: option.splits obj.splits js.splits)

text \<open>The callback leaves the store as it was and appends the sorted copy and the new item.\<close>

lemma sortItem_reads:
  assumes "readItem h r = Some it"
  shows "sortItem h r =
           Some (h @ [StrArray (sort (permissionTypes it)), ItemObj (length h) (item.more it)],
                 Suc (length h))"
  using assms
  by (auto simp: readItem_def sortItem_def alloc_def split: option.splits obj.splits)

lemma readItem_sorted:
  "readItem (h @ [StrArray ys, ItemObj (length h) rest]) (Suc (length h))
     = Some \<lparr>permissionTypes = ys, \<dots> = rest\<rparr>"
  by (simp add: readItem_def lookup_def nth_append)

lemma mapItems_reads:
  "readItems h rs = Some its \<Longrightarrow>
     \<exists>e rs'. mapItems h rs = Some (h @ e, rs')
       \<and> readItems (h @ e) rs' =
           Some (map (\<lambda>item. item\<lparr>permissionTypes := sort (permissionTypes item)\<rparr>) its)"
proof (induction rs arbitrary: h its)
  case Nil
  then show ?case by simp
next
  case (Cons r rs)
  from Cons.prems obtain it its' where
    it: "readItem h r = Some it" and its': "readItems h rs = Some its'" and e: "its = it # its'"
    by (auto split: option.splits)
  let ?e1 = "[StrArray (sort (permissionTypes it)), ItemObj (length h) (item.more it)]"
  have s: "sortItem h r = Some (h @ ?e1, Suc (length h))"
    using it by (rule sortItem_reads)
  have "readItems (h @ ?e1) rs = Some its'"
    using its' by (rule readItems_append)
  from Cons.IH [OF this] obtain e2 rs' where
    m: "mapItems (h @ ?e1) rs = Some ((h @ ?e1) @ e2, rs')" and
    rd: "readItems ((h @ ?e1) @ e2) rs' =
           Some (map (\<lambda>item. item\<lparr>permissionTypes := sort (permissionTypes item)\<rparr>) its')"
    by blast
  have "readItem (h @ ?e1) (Suc (length h))
      = Some \<lparr>permissionTypes = sort (permissionTypes it), \<dots> = item.more it\<rparr>"
    by (rule readItem_sorted)
  then have "readItem ((h @ ?e1) @ e2) (Suc (length h))
      = Some \<lparr>permissionTypes = sort (permissionTypes it), \<dots> = item.more it\<rparr>"
    by (rule readItem_append)
  moreover have "\<lparr>permissionTypes = sort (permissionTypes it), \<dots> = item.more it\<rparr>
      = it\<lparr>permissionTypes := sort (permissionTypes it)\<rparr>"
    by (cases it) simp
  ultimately have r': "readItem ((h @ ?e1) @ e2) (Suc (length h))
      = Some (it\<lparr>permissionTypes := sort (permissionTypes it)\<rparr>)"
    by simp
  have "mapItems h (r # rs) = Some (h @ (?e1 @ e2), Suc (length h) # rs')"
    using s m by simp
  moreover have "readItems (h @ (?e1 @ e2)) (Suc (length h) # rs') =
      Some (map (\<lambda>item. item\<lparr>permissionTypes := sort (permissionTypes item)\<rparr>) its)"
    using r' rd e by simp
  ultimately show ?case by blast
qed

text \<open>
  C4. Absent input leaves the store as it is. When the input address denotes a page, the
  transform returns a new address in a store that extends the old one: every object of the
  old store, hence the source page, its items array, every source record and every source
  permission-type array, is unchanged, and the source page still reads as before. The new
  page reads as the result of the transform on values; its fields other than the items
  equal the source's, and so do the fields of each record other than the permission types.
\<close>

theorem transform_frame:
  assumes "readPage h p = Some pg"
  shows "sortPermissionTypesAlphabetically_heap h Undefined = Some (h, Undefined)
       \<and> sortPermissionTypesAlphabetically_heap h Null = Some (h, Null)
       \<and> (\<exists>h' p' pg'.
             sortPermissionTypesAlphabetically_heap h (Val p) = Some (h', Val p')
           \<and> take (length h) h' = h
           \<and> length h \<le> p'
           \<and> readPage h' p = Some pg
           \<and> readPage h' p' = Some pg'
           \<and> sortPermissionTypesAlphabetically (Val pg) = Val pg'
           \<and> page.more pg' = page.more pg
           \<and> (\<forall>xs. items pg = Val xs \<longrightarrow>
                 (\<exists>ys. items pg' = Val ys \<and> map item.more ys = map item.more xs)))"
proof -
  from assms obtain its rest where pobj: "lookup h p = Some (PageObj its rest)"
    by (auto simp: readPage_def split: option.splits obj.splits)
  let ?f = "\<lambda>item :: 'a item_scheme. item\<lparr>permissionTypes := sort (permissionTypes item)\<rparr>"
  have absent: "sortPermissionTypesAlphabetically_heap h Undefined = Some (h, Undefined)
       \<and> sortPermissionTypesAlphabetically_heap h Null = Some (h, Null)"
    by (simp add: sortPermissionTypesAlphabetically_heap_def)
  have "\<exists>h' p' pg'.
             sortPermissionTypesAlphabetically_heap h (Val p) = Some (h', Val p')
           \<and> take (length h) h' = h
           \<and> length h \<le> p'
           \<and> readPage h' p = Some pg
           \<and> readPage h' p' = Some pg'
           \<and> sortPermissionTypesAlphabetically (Val pg) = Val pg'
           \<and> page.more pg' = page.more pg
           \<and> (\<forall>xs. items pg = Val xs \<longrightarrow>
                 (\<exists>ys. items pg' = Val ys \<and> map item.more ys = map item.more xs))"
  proof (cases its)
    case (Val a)
    with assms pobj obtain rs vs where
      arr: "lookup h a = Some (ItemArray rs)" and vs: "readItems h rs = Some vs" and
      pg: "pg = \<lparr>items = Val vs, \<dots> = rest\<rparr>"
      by (auto simp: readPage_def split: option.splits obj.splits)
    from mapItems_reads [OF vs] obtain e rs' where
      m: "mapItems h rs = Some (h @ e, rs')" and
      rd: "readItems (h @ e) rs' = Some (map ?f vs)"
      by blast
    let ?h' = "h @ e @ [ItemArray rs', PageObj (Val (length h + length e)) rest]"
    let ?p' = "Suc (length h + length e)"
    let ?pg' = "\<lparr>items = Val (map ?f vs), \<dots> = rest\<rparr>"
    have run: "sortPermissionTypesAlphabetically_heap h (Val p) = Some (?h', Val ?p')"
      using pobj Val arr m
      by (simp add: sortPermissionTypesAlphabetically_heap_def alloc_def)
    have "readItems ((h @ e) @ [ItemArray rs', PageObj (Val (length h + length e)) rest]) rs'
        = Some (map ?f vs)"
      using rd by (rule readItems_append)
    then have new: "readPage ?h' ?p' = Some ?pg'"
      by (simp add: readPage_def lookup_def nth_append)
    have old: "readPage ?h' p = Some pg"
      using assms by (rule readPage_append)
    have pure: "sortPermissionTypesAlphabetically (Val pg) = Val ?pg'"
      by (simp add: pg sortPermissionTypesAlphabetically_def)
    have more: "map item.more (map ?f vs) = map item.more vs"
      by simp
    show ?thesis
      using run new old pure more by (simp add: pg)
  next
    case Undefined
    with assms pobj have pg: "pg = \<lparr>items = Undefined, \<dots> = rest\<rparr>"
      by (simp add: readPage_def)
    let ?h' = "h @ [PageObj Undefined rest]"
    have run: "sortPermissionTypesAlphabetically_heap h (Val p) = Some (?h', Val (length h))"
      using pobj Undefined by (simp add: sortPermissionTypesAlphabetically_heap_def alloc_def)
    have new: "readPage ?h' (length h) = Some \<lparr>items = Undefined, \<dots> = rest\<rparr>"
      by (simp add: readPage_def lookup_def)
    have old: "readPage ?h' p = Some pg"
      using assms by (rule readPage_append)
    have pure: "sortPermissionTypesAlphabetically (Val pg)
        = Val \<lparr>items = Undefined, \<dots> = rest\<rparr>"
      by (simp add: pg sortPermissionTypesAlphabetically_def)
    show ?thesis
      using run new old pure by (simp add: pg)
  next
    case Null
    with assms pobj have pg: "pg = \<lparr>items = Null, \<dots> = rest\<rparr>"
      by (simp add: readPage_def)
    let ?h' = "h @ [PageObj Undefined rest]"
    have run: "sortPermissionTypesAlphabetically_heap h (Val p) = Some (?h', Val (length h))"
      using pobj Null by (simp add: sortPermissionTypesAlphabetically_heap_def alloc_def)
    have new: "readPage ?h' (length h) = Some \<lparr>items = Undefined, \<dots> = rest\<rparr>"
      by (simp add: readPage_def lookup_def)
    have old: "readPage ?h' p = Some pg"
      using assms by (rule readPage_append)
    have pure: "sortPermissionTypesAlphabetically (Val pg)
        = Val \<lparr>items = Undefined, \<dots> = rest\<rparr>"
      by (simp add: pg sortPermissionTypesAlphabetically_def)
    show ?thesis
      using run new old pure by (simp add: pg)
  qed
  with absent show ?thesis by blast
qed

theorem transform_frame_witness:
  "readPage
     [StrArray [''WRITE'', ''READ'', ''CREATE''], ItemObj 0 (), ItemArray [1], PageObj (Val 2) ()] 3
     = Some \<lparr>items = Val [\<lparr>permissionTypes = [''WRITE'', ''READ'', ''CREATE'']\<rparr>]\<rparr>
   \<and> sortPermissionTypesAlphabetically_heap
       [StrArray [''WRITE'', ''READ'', ''CREATE''], ItemObj 0 (), ItemArray [1], PageObj (Val 2) ()]
       (Val 3)
     = Some ([StrArray [''WRITE'', ''READ'', ''CREATE''], ItemObj 0 (), ItemArray [1],
              PageObj (Val 2) (),
              StrArray [''CREATE'', ''READ'', ''WRITE''], ItemObj 4 (), ItemArray [5],
              PageObj (Val 6) ()], Val 7)"
  using transform_frame
    [of "[StrArray [''WRITE'', ''READ'', ''CREATE''], ItemObj 0 (), ItemArray [1],
          PageObj (Val 2) ()]" 3
        "\<lparr>items = Val [\<lparr>permissionTypes = [''WRITE'', ''READ'', ''CREATE'']\<rparr>]\<rparr>"]
  by (simp add: readPage_def readItem_def lookup_def sortPermissionTypesAlphabetically_heap_def
      sortItem_def alloc_def)


section \<open>URL synchronisation\<close>

lemma get_set_param: "get (set_param ps name v) name = Val v"
  by (induction ps) auto

lemma initialTab_eq: "initialTab searchParams tabs = getActiveTabFromUrl searchParams tabs"
  by (simp add: initialTab_def getActiveTabFromUrl_def)

text \<open>Each effect writes exactly when the parameter differs from the active tab.\<close>

lemma urlSyncEffect_writes_iff:
  "(urlSyncEffect searchParams activeTab \<noteq> [])
     = (get searchParams ''resourceType'' \<noteq> activeTab)"
  "(urlSyncEffect_stateless resourceTypeFromUrl activeTab \<noteq> [])
     = (resourceTypeFromUrl \<noteq> activeTab)"
  by (simp_all add: urlSyncEffect_def urlSyncEffect_stateless_def Let_def)

lemma resolve_valid:
  assumes "tabs \<noteq> []" and "[] \<notin> set tabs"
  shows "\<exists>a. getActiveTabFromUrl searchParams tabs = Val a \<and> a \<in> set tabs \<and> a \<noteq> []"
proof (cases "truthy (get searchParams ''resourceType'')
    \<and> array_includes tabs (get searchParams ''resourceType'')")
  case True
  then show ?thesis
    by (cases "get searchParams ''resourceType''") (simp_all add: getActiveTabFromUrl_def)
next
  case False
  then have "getActiveTabFromUrl searchParams tabs = Val (hd tabs)"
    using assms by (auto simp: getActiveTabFromUrl_def index_0)
  moreover have "hd tabs \<in> set tabs" and "hd tabs \<noteq> []"
    using assms by (cases tabs; auto)+
  ultimately show ?thesis by simp
qed

lemma resolve_rewritten:
  assumes "a \<in> set tabs" and "a \<noteq> []"
  shows "getActiveTabFromUrl (set_param searchParams ''resourceType'' a) tabs = Val a"
    and "getActiveTabFromUrl (createSearchParams (Val a)) tabs = Val a"
  using assms by (simp_all add: getActiveTabFromUrl_def get_set_param createSearchParams_def)

text \<open>
  From the first render the stateful variant makes at most one write, of the resolved tab,
  and its second render pass makes no call.
\<close>

lemma mount_settles:
  assumes "tabs \<noteq> []" and "[] \<notin> set tabs"
  shows "filter isUrlWrite (pass_calls tabs (mount tabs searchParams)) =
           (if get searchParams ''resourceType'' = getActiveTabFromUrl searchParams tabs then []
            else [SetSearchParams
                    (set_param searchParams ''resourceType''
                       (toString (getActiveTabFromUrl searchParams tabs)))
                    (Some \<lparr>replace = True\<rparr>)])"
    and "pass_calls tabs (pass tabs (mount tabs searchParams)) = []"
proof -
  from resolve_valid [OF assms] obtain a where
    a: "getActiveTabFromUrl searchParams tabs = Val a" and m: "a \<in> set tabs" and n: "a \<noteq> []"
    by blast
  show "filter isUrlWrite (pass_calls tabs (mount tabs searchParams)) =
           (if get searchParams ''resourceType'' = getActiveTabFromUrl searchParams tabs then []
            else [SetSearchParams
                    (set_param searchParams ''resourceType''
                       (toString (getActiveTabFromUrl searchParams tabs)))
                    (Some \<lparr>replace = True\<rparr>)])"
    by (auto simp: pass_calls_def mount_def effects_def syncActiveTabEffect_def
        urlSyncEffect_def resetPaginationEffect_def a)
  have w: "pass tabs (mount tabs searchParams) =
      \<lparr>url = (if get searchParams ''resourceType'' = Val a then searchParams
               else set_param searchParams ''resourceType'' a),
       activeTabState = Val a, page = 0, previous = Some (searchParams, Val a)\<rparr>"
    by (simp add: pass_def pass_calls_def mount_def effects_def syncActiveTabEffect_def
        urlSyncEffect_def resetPaginationEffect_def a apply_calls_def)
  show "pass_calls tabs (pass tabs (mount tabs searchParams)) = []"
    using resolve_rewritten(1) [OF m n, of searchParams]
    by (simp add: w pass_calls_def effects_def syncActiveTabEffect_def urlSyncEffect_def
        get_set_param Let_def)
qed

text \<open>In the stateless variant the render pass after any render pass makes no call.\<close>

lemma stateless_settles:
  assumes "tabs \<noteq> []" and "[] \<notin> set tabs"
  shows "pass_calls_stateless tabs (pass_stateless tabs w) = []"
proof -
  from resolve_valid [OF assms] obtain a where
    a: "getActiveTabFromUrl (url w) tabs = Val a" and m: "a \<in> set tabs" and n: "a \<noteq> []"
    by blast
  show ?thesis
  proof (cases "pass_calls_stateless tabs w = []")
    case True
    then have "pass_stateless tabs w = w\<lparr>previous := Some (url w, Val a)\<rparr>"
      by (simp add: pass_stateless_def apply_calls_def activeTab_stateless_def initialTab_eq a)
    then show ?thesis
      by (simp add: pass_calls_stateless_def effects_stateless_def activeTab_stateless_def
          initialTab_eq a)
  next
    case False
    then have c: "pass_calls_stateless tabs w =
        [SetSearchParams (createSearchParams (Val a)) (Some \<lparr>replace = True\<rparr>)]"
      by (auto simp: pass_calls_stateless_def effects_stateless_def activeTab_stateless_def
          initialTab_eq a urlSyncEffect_stateless_def Let_def split: if_splits)
    have "pass_stateless tabs w =
        w\<lparr>previous := Some (url w, Val a), url := createSearchParams (Val a)\<rparr>"
      by (simp add: pass_stateless_def c apply_calls_def activeTab_stateless_def initialTab_eq a)
    then show ?thesis
      using resolve_rewritten(2) [OF m n]
      by (simp add: pass_calls_stateless_def effects_stateless_def activeTab_stateless_def
          initialTab_eq urlSyncEffect_stateless_def createSearchParams_def Let_def)
  qed
qed

text \<open>
  A drifting world of the stateful variant stays drifting: in one pass the first effect
  stores the URL's tab in the state and the second writes the old state into the URL, so
  the two swap.
\<close>

lemma drift_pass:
  assumes "drift tabs w"
  shows "drift tabs (pass tabs w)
       \<and> activeTabState (pass tabs w) = get (url w) ''resourceType''
       \<and> get (url (pass tabs w)) ''resourceType'' = activeTabState w
       \<and> filter isUrlWrite (pass_calls tabs w) =
           [SetSearchParams
              (set_param (url w) ''resourceType'' (toString (activeTabState w)))
              (Some \<lparr>replace = True\<rparr>)]"
proof -
  from assms obtain a b where
    a: "activeTabState w = Val a" and b: "get (url w) ''resourceType'' = Val b"
    and ne: "a \<noteq> b" and am: "a \<in> set tabs" and bm: "b \<in> set tabs"
    and an: "a \<noteq> []" and bn: "b \<noteq> []"
    and ch: "previous w \<noteq> Some (url w, Val a)"
    by (cases "activeTabState w"; cases "get (url w) ''resourceType''")
       (auto simp: drift_def)
  have r: "getActiveTabFromUrl (url w) tabs = Val b"
    using b bm bn by (simp add: getActiveTabFromUrl_def)
  have changed: "(case previous w of None \<Rightarrow> True | Some (sp, x) \<Rightarrow> sp \<noteq> url w)
      \<or> (case previous w of None \<Rightarrow> True | Some (sp, x) \<Rightarrow> x \<noteq> Val a)"
    using ch by (auto split: option.splits)
  have calls: "pass_calls tabs w =
      [SetActiveTab (Val b),
       SetSearchParams (set_param (url w) ''resourceType'' a) (Some \<lparr>replace = True\<rparr>)]
      @ (if (case previous w of None \<Rightarrow> True | Some (sp, x) \<Rightarrow> x \<noteq> Val a)
         then [ResetPagination] else [])"
    using changed a b r ne
    by (auto simp: pass_calls_def effects_def syncActiveTabEffect_def urlSyncEffect_def
        resetPaginationEffect_def Let_def)
  have st: "activeTabState (pass tabs w) = Val b"
    and u: "url (pass tabs w) = set_param (url w) ''resourceType'' a"
    and p: "previous (pass tabs w) = Some (url w, Val a)"
    by (simp_all add: pass_def calls apply_calls_def a)
  have g: "get (url (pass tabs w)) ''resourceType'' = Val a"
    by (simp add: u get_set_param)
  have "url (pass tabs w) \<noteq> url w"
    using g b ne by auto
  then have "previous (pass tabs w) \<noteq> Some (url (pass tabs w), activeTabState (pass tabs w))"
    using p by simp
  then have "drift tabs (pass tabs w)"
    using st g am bm an bn ne by (simp add: drift_def)
  then show ?thesis
    using st g a b calls by simp
qed

lemma drift_funpow: "drift tabs w \<Longrightarrow> drift tabs ((pass tabs ^^ n) w)"
  by (induction n) (simp_all add: drift_pass)

text \<open>The same holds when the URL writes arrive one render later.\<close>

lemma drift_round_deferred:
  assumes "drift tabs w"
  shows "drift tabs (round_deferred tabs w)
       \<and> activeTabState (round_deferred tabs w) = get (url w) ''resourceType''
       \<and> get (url (round_deferred tabs w)) ''resourceType'' = activeTabState w"
proof -
  from assms obtain a b where
    a: "activeTabState w = Val a" and b: "get (url w) ''resourceType'' = Val b"
    and ne: "a \<noteq> b" and am: "a \<in> set tabs" and bm: "b \<in> set tabs"
    and an: "a \<noteq> []" and bn: "b \<noteq> []"
    and ch: "previous w \<noteq> Some (url w, Val a)"
    by (cases "activeTabState w"; cases "get (url w) ''resourceType''")
       (auto simp: drift_def)
  have r: "getActiveTabFromUrl (url w) tabs = Val b"
    using b bm bn by (simp add: getActiveTabFromUrl_def)
  have changed: "(case previous w of None \<Rightarrow> True | Some (sp, x) \<Rightarrow> sp \<noteq> url w)
      \<or> (case previous w of None \<Rightarrow> True | Some (sp, x) \<Rightarrow> x \<noteq> Val a)"
    using ch by (auto split: option.splits)
  have calls: "pass_calls tabs w =
      [SetActiveTab (Val b),
       SetSearchParams (set_param (url w) ''resourceType'' a) (Some \<lparr>replace = True\<rparr>)]
      @ (if (case previous w of None \<Rightarrow> True | Some (sp, x) \<Rightarrow> x \<noteq> Val a)
         then [ResetPagination] else [])"
    using changed a b r ne
    by (auto simp: pass_calls_def effects_def syncActiveTabEffect_def urlSyncEffect_def
        resetPaginationEffect_def Let_def)
  let ?d = "pass_deferring tabs w"
  have d: "activeTabState ?d = Val b" "url ?d = url w" "previous ?d = Some (url w, Val a)"
    by (simp_all add: pass_deferring_def calls apply_calls_def a)
  have dc: "pass_calls tabs ?d = [ResetPagination]"
    using ne b r
    by (simp add: pass_calls_def effects_def d syncActiveTabEffect_def urlSyncEffect_def
        resetPaginationEffect_def)
  have p: "activeTabState (pass tabs ?d) = Val b" "url (pass tabs ?d) = url w"
    "previous (pass tabs ?d) = Some (url w, Val b)"
    by (simp_all add: pass_def dc apply_calls_def d)
  have st: "activeTabState (round_deferred tabs w) = Val b"
    and u: "url (round_deferred tabs w) = set_param (url w) ''resourceType'' a"
    and pr: "previous (round_deferred tabs w) = Some (url w, Val b)"
    by (simp_all add: round_deferred_def calls apply_calls_def p)
  have g: "get (url (round_deferred tabs w)) ''resourceType'' = Val a"
    by (simp add: u get_set_param)
  have "url (round_deferred tabs w) \<noteq> url w"
    using g b ne by auto
  then have "previous (round_deferred tabs w)
      \<noteq> Some (url (round_deferred tabs w), activeTabState (round_deferred tabs w))"
    using pr by simp
  then have "drift tabs (round_deferred tabs w)"
    using st g am bm an bn ne by (simp add: drift_def)
  then show ?thesis
    using st g a b by simp
qed

lemmas pass_simps =
  example_tabs_def pass_def pass_calls_def effects_def apply_calls_def
  getActiveTabFromUrl_def syncActiveTabEffect_def urlSyncEffect_def resetPaginationEffect_def
  index_def

text \<open>A tab selection puts the stateful variant into a drifting world.\<close>

lemma drift_after_selection: "drift example_tabs after_selection"
  by (simp add: drift_def after_selection_def select_tab_def handleTabChange_def mount_def
      pass_simps)

text \<open>
  C8. In the stateful variant, after the user selects the tab \<^verbatim>\<open>USER\<close> on a page opened at
  \<^verbatim>\<open>?resourceType=AUTHORIZATION\<close>, the next render pass sets the state back to
  \<^verbatim>\<open>AUTHORIZATION\<close> and writes \<^verbatim>\<open>USER\<close> into the URL, the pass after it does the opposite,
  and the third pass ends in the world the first one ended in. Every later render pass
  writes the URL again: state and URL never agree.
\<close>

theorem selection_never_settles:
  "pass_calls example_tabs after_selection =
     [SetActiveTab (Val ''AUTHORIZATION''),
      SetSearchParams [(''resourceType'', ''USER'')] (Some \<lparr>replace = True\<rparr>),
      ResetPagination]
   \<and> pass_calls example_tabs (pass example_tabs after_selection) =
     [SetActiveTab (Val ''USER''),
      SetSearchParams [(''resourceType'', ''AUTHORIZATION'')] (Some \<lparr>replace = True\<rparr>),
      ResetPagination]
   \<and> pass example_tabs (pass example_tabs (pass example_tabs after_selection))
       = pass example_tabs after_selection
   \<and> (\<forall>n. filter isUrlWrite
              (pass_calls example_tabs ((pass example_tabs ^^ n) after_selection)) \<noteq> [])"
proof -
  let ?w1 = "\<lparr>url = [(''resourceType'', ''AUTHORIZATION'')], activeTabState = Val ''USER'',
       page = 0,
       previous = Some ([(''resourceType'', ''AUTHORIZATION'')], Val ''AUTHORIZATION'')\<rparr>"
  let ?w2 = "\<lparr>url = [(''resourceType'', ''USER'')], activeTabState = Val ''AUTHORIZATION'',
       page = 0,
       previous = Some ([(''resourceType'', ''AUTHORIZATION'')], Val ''USER'')\<rparr>"
  let ?w3 = "\<lparr>url = [(''resourceType'', ''AUTHORIZATION'')], activeTabState = Val ''USER'',
       page = 0,
       previous = Some ([(''resourceType'', ''USER'')], Val ''AUTHORIZATION'')\<rparr>"
  have w1: "after_selection = ?w1"
    by (simp add: after_selection_def select_tab_def handleTabChange_def mount_def pass_simps)
  have c1: "pass_calls example_tabs ?w1 =
     [SetActiveTab (Val ''AUTHORIZATION''),
      SetSearchParams [(''resourceType'', ''USER'')] (Some \<lparr>replace = True\<rparr>),
      ResetPagination]"
    by (simp add: pass_simps)
  have w2: "pass example_tabs ?w1 = ?w2"
    by (simp add: pass_simps)
  have c2: "pass_calls example_tabs ?w2 =
     [SetActiveTab (Val ''USER''),
      SetSearchParams [(''resourceType'', ''AUTHORIZATION'')] (Some \<lparr>replace = True\<rparr>),
      ResetPagination]"
    by (simp add: pass_simps)
  have w3: "pass example_tabs ?w2 = ?w3"
    by (simp add: pass_simps)
  have w4: "pass example_tabs ?w3 = ?w2"
    by (simp add: pass_simps)
  have "filter isUrlWrite
      (pass_calls example_tabs ((pass example_tabs ^^ n) after_selection)) \<noteq> []" for n
    using drift_pass [OF drift_funpow [OF drift_after_selection, of n]] by simp
  then show ?thesis
    by (simp only: w1 w2 w3 w4 c1 c2 simp_thms)
qed

theorem selection_never_settles_witness:
  "filter isUrlWrite (pass_calls example_tabs ((pass example_tabs ^^ 4) after_selection)) \<noteq> []"
  using selection_never_settles by blast


section \<open>Navigation mode of the URL writes\<close>

text \<open>
  C7, as the claim states it, fails in the stateless variant: the handler of a tab selection
  calls \<^verbatim>\<open>setSearchParams\<close> without navigation options, which pushes a history entry.
\<close>

theorem stateless_selection_pushes:
  "handleTabChange_stateless [''AUTHORIZATION'', ''TENANT'', ''USER''] 1 =
     [ResetPagination, SetSearchParams [(''resourceType'', ''TENANT'')] None]
   \<and> isUrlWrite (SetSearchParams [(''resourceType'', ''TENANT'')] None)
   \<and> \<not> usesReplace (SetSearchParams [(''resourceType'', ''TENANT'')] None)
   \<and> navigationOf None = Push"
  by (simp add: handleTabChange_stateless_def index_def createSearchParams_def)

text \<open>
  C7, amended. Every URL write made by the effects of either variant uses replace
  navigation. In the stateful variant the tab-selection handler writes nothing to the URL;
  the write that follows a selection is made by the URL-synchronisation effect of the next
  render pass, with replace. In the stateless variant the tab-selection handler makes one
  URL write, without navigation options, which pushes a history entry.
\<close>

theorem url_writes_navigation:
  "(\<forall>c \<in> set (effects tabs prev resetPaginationChanged setSearchParamsChanged searchParams activeTab).
       isUrlWrite c \<longrightarrow> usesReplace c)
   \<and> (\<forall>c \<in> set (effects_stateless tabs prev setSearchParamsChanged searchParams).
       isUrlWrite c \<longrightarrow> usesReplace c)
   \<and> filter isUrlWrite (handleTabChange tabs selectedIndex) = []
   \<and> filter isUrlWrite (pass_calls tabs (select_tab tabs selectedIndex w)) =
       (if get (url w) ''resourceType'' \<noteq> index tabs selectedIndex
           \<and> previous w \<noteq> Some (url w, index tabs selectedIndex)
        then [SetSearchParams
                (set_param (url w) ''resourceType'' (toString (index tabs selectedIndex)))
                (Some \<lparr>replace = True\<rparr>)]
        else [])
   \<and> filter isUrlWrite (handleTabChange_stateless tabs selectedIndex) =
       [SetSearchParams (createSearchParams (index tabs selectedIndex)) None]
   \<and> navigationOf None = Push"
  by (auto simp: effects_def effects_stateless_def syncActiveTabEffect_def urlSyncEffect_def
      resetPaginationEffect_def urlSyncEffect_stateless_def handleTabChange_def
      handleTabChange_stateless_def Let_def pass_calls_def select_tab_def apply_calls_def
      split: option.splits)

theorem url_writes_navigation_witness:
  "filter isUrlWrite (effects example_tabs None False False [] (Val ''AUTHORIZATION'')) =
     [SetSearchParams [(''resourceType'', ''AUTHORIZATION'')] (Some \<lparr>replace = True\<rparr>)]
   \<and> usesReplace
       (SetSearchParams [(''resourceType'', ''AUTHORIZATION'')] (Some \<lparr>replace = True\<rparr>))
   \<and> filter isUrlWrite (effects_stateless example_tabs None False []) =
     [SetSearchParams [(''resourceType'', ''AUTHORIZATION'')] (Some \<lparr>replace = True\<rparr>)]"
  using url_writes_navigation [of example_tabs None False False "[]" "Val ''AUTHORIZATION''"]
  by (simp add: pass_simps effects_stateless_def urlSyncEffect_stateless_def
      activeTab_stateless_def initialTab_def createSearchParams_def)


section \<open>Pagination reset\<close>

text \<open>
  The effects of the stateless variant never reset the pagination; those of the stateful
  variant do in every render in which the active tab differs from the previous render's.
\<close>

lemma effects_stateless_never_reset:
  "ResetPagination \<notin> set (effects_stateless tabs prev setSearchParamsChanged searchParams)"
  by (simp add: effects_stateless_def urlSyncEffect_stateless_def Let_def)

lemma effects_reset_on_tab_change:
  "prev = None \<or> (\<exists>sp a. prev = Some (sp, a) \<and> a \<noteq> activeTab) \<Longrightarrow>
     ResetPagination \<in> set (effects tabs prev resetPaginationChanged setSearchParamsChanged searchParams activeTab)"
  by (auto simp: effects_def resetPaginationEffect_def Let_def)

text \<open>
  C6. In the stateless variant, with the list on its fourth page of the tab
  \<^verbatim>\<open>AUTHORIZATION\<close>, the browser goes to \<^verbatim>\<open>?resourceType=USER\<close>. The active tab of the next
  render is \<^verbatim>\<open>USER\<close>, which differs from the previous render's; the render pass makes no call
  at all, so the pagination is not reset, and the query of that render and of the next is
  for the tab \<^verbatim>\<open>USER\<close> on the fourth page.
\<close>

theorem stateless_url_change_keeps_page:
  "previous after_navigation_stateless =
     Some ([(''resourceType'', ''AUTHORIZATION'')], Val ''AUTHORIZATION'')
   \<and> page after_navigation_stateless = 3
   \<and> activeTab_stateless (url after_navigation_stateless) example_tabs = Val ''USER''
   \<and> pass_calls_stateless example_tabs after_navigation_stateless = []
   \<and> query_stateless example_tabs after_navigation_stateless = (Val ''USER'', 3)
   \<and> query_stateless example_tabs (pass_stateless example_tabs after_navigation_stateless)
       = (Val ''USER'', 3)"
proof -
  have w: "after_navigation_stateless =
      \<lparr>url = [(''resourceType'', ''USER'')], activeTabState = Undefined, page = 3,
       previous = Some ([(''resourceType'', ''AUTHORIZATION'')], Val ''AUTHORIZATION'')\<rparr>"
    by (simp add: after_navigation_stateless_def browser_navigates_def go_to_page_def
        pass_stateless_def pass_calls_stateless_def effects_stateless_def mount_stateless_def
        activeTab_stateless_def initialTab_def urlSyncEffect_stateless_def apply_calls_def
        example_tabs_def)
  show ?thesis
    by (simp add: w pass_stateless_def pass_calls_stateless_def effects_stateless_def
        activeTab_stateless_def initialTab_def urlSyncEffect_stateless_def apply_calls_def
        example_tabs_def query_stateless_def)
qed

theorem stateless_url_change_keeps_page_witness:
  "query_stateless example_tabs (pass_stateless example_tabs after_navigation_stateless)
       = (Val ''USER'', 3)"
  using stateless_url_change_keeps_page by simp


section \<open>Tab selection\<close>

text \<open>
  C10, as the claim states it, fails in the stateless variant: its handler writes the
  looked-up value into the URL, for an index outside the tab set as the string
  \<^verbatim>\<open>undefined\<close>, and the active tab is resolved from the URL again, so with three tabs and the
  index 3 the active tab is the first tab, a member of the tab set.
\<close>

theorem stateless_selection_out_of_range_member:
  "handleTabChange_stateless example_tabs 3 =
     [ResetPagination, SetSearchParams [(''resourceType'', ''undefined'')] None]
   \<and> \<not> (3 < int (length example_tabs))
   \<and> activeTab_stateless
        (url (select_tab_stateless example_tabs 3 (mount_stateless [(''resourceType'', ''USER'')])))
        example_tabs = Val ''AUTHORIZATION''
   \<and> array_includes example_tabs (Val ''AUTHORIZATION'')"
  by (simp add: handleTabChange_stateless_def select_tab_stateless_def apply_calls_def
      mount_stateless_def createSearchParams_def index_def example_tabs_def
      activeTab_stateless_def initialTab_def)

text \<open>
  C10, amended. Both tab-selection handlers read \<^verbatim>\<open>authorizationTabs[selectedIndex]\<close> without
  a bounds check: an index within the tab set selects the resource type at that position,
  any other index yields \<^verbatim>\<open>undefined\<close>. In the stateful variant the handler stores that value
  and the active tab is then a member of the tab set exactly when the index was within
  range. In the stateless variant the handler writes that value into the URL; for a
  non-empty tab set of non-empty strings the active tab resolved from that URL is a member
  of the tab set for every index: the selected resource type for an index within range,
  and otherwise, the URL holding \<^verbatim>\<open>resourceType=undefined\<close>, the first tab (or the tab named
  \<^verbatim>\<open>undefined\<close>, should there be one).
\<close>

theorem handleTabChange_lookup:
  "handleTabChange tabs selectedIndex =
     [SetActiveTab (if 0 \<le> selectedIndex \<and> selectedIndex < int (length tabs)
                    then Val (tabs ! nat selectedIndex) else Undefined)]
   \<and> handleTabChange_stateless tabs selectedIndex =
     [ResetPagination,
      SetSearchParams
        (createSearchParams (if 0 \<le> selectedIndex \<and> selectedIndex < int (length tabs)
                             then Val (tabs ! nat selectedIndex) else Undefined)) None]
   \<and> (array_includes tabs (activeTabState (select_tab tabs selectedIndex w))
        \<longleftrightarrow> 0 \<le> selectedIndex \<and> selectedIndex < int (length tabs))
   \<and> (tabs \<noteq> [] \<and> [] \<notin> set tabs \<longrightarrow>
        array_includes tabs
          (activeTab_stateless (url (select_tab_stateless tabs selectedIndex w)) tabs)
      \<and> (0 \<le> selectedIndex \<and> selectedIndex < int (length tabs) \<longrightarrow>
           activeTab_stateless (url (select_tab_stateless tabs selectedIndex w)) tabs
             = Val (tabs ! nat selectedIndex))
      \<and> (\<not> (0 \<le> selectedIndex \<and> selectedIndex < int (length tabs)) \<longrightarrow>
           url (select_tab_stateless tabs selectedIndex w) = [(''resourceType'', ''undefined'')]
         \<and> activeTab_stateless (url (select_tab_stateless tabs selectedIndex w)) tabs
             = (if ''undefined'' \<in> set tabs then Val ''undefined'' else Val (hd tabs))))"
proof -
  have mem: "0 \<le> selectedIndex \<and> selectedIndex < int (length tabs)
      \<longrightarrow> tabs ! nat selectedIndex \<in> set tabs"
  proof
    assume "0 \<le> selectedIndex \<and> selectedIndex < int (length tabs)"
    then have "nat selectedIndex < length tabs" by linarith
    then show "tabs ! nat selectedIndex \<in> set tabs" by (rule nth_mem)
  qed
  then have first: "handleTabChange tabs selectedIndex =
     [SetActiveTab (if 0 \<le> selectedIndex \<and> selectedIndex < int (length tabs)
                    then Val (tabs ! nat selectedIndex) else Undefined)]
   \<and> handleTabChange_stateless tabs selectedIndex =
     [ResetPagination,
      SetSearchParams
        (createSearchParams (if 0 \<le> selectedIndex \<and> selectedIndex < int (length tabs)
                             then Val (tabs ! nat selectedIndex) else Undefined)) None]
   \<and> (array_includes tabs (activeTabState (select_tab tabs selectedIndex w))
        \<longleftrightarrow> 0 \<le> selectedIndex \<and> selectedIndex < int (length tabs))"
    by (simp add: handleTabChange_def handleTabChange_stateless_def select_tab_def
        apply_calls_def index_def)
  have u: "url (select_tab_stateless tabs selectedIndex w)
      = createSearchParams (index tabs selectedIndex)"
    by (simp add: select_tab_stateless_def handleTabChange_stateless_def apply_calls_def)
  have second: "array_includes tabs
          (activeTab_stateless (url (select_tab_stateless tabs selectedIndex w)) tabs)
      \<and> (0 \<le> selectedIndex \<and> selectedIndex < int (length tabs) \<longrightarrow>
           activeTab_stateless (url (select_tab_stateless tabs selectedIndex w)) tabs
             = Val (tabs ! nat selectedIndex))
      \<and> (\<not> (0 \<le> selectedIndex \<and> selectedIndex < int (length tabs)) \<longrightarrow>
           url (select_tab_stateless tabs selectedIndex w) = [(''resourceType'', ''undefined'')]
         \<and> activeTab_stateless (url (select_tab_stateless tabs selectedIndex w)) tabs
             = (if ''undefined'' \<in> set tabs then Val ''undefined'' else Val (hd tabs)))"
    if ne: "tabs \<noteq> []" and nn: "[] \<notin> set tabs"
  proof -
    from resolve_valid [OF ne nn, of "url (select_tab_stateless tabs selectedIndex w)"]
    have a: "array_includes tabs
          (activeTab_stateless (url (select_tab_stateless tabs selectedIndex w)) tabs)"
      by (auto simp: activeTab_stateless_def initialTab_eq)
    have b: "activeTab_stateless (url (select_tab_stateless tabs selectedIndex w)) tabs
             = Val (tabs ! nat selectedIndex)"
      if r: "0 \<le> selectedIndex \<and> selectedIndex < int (length tabs)"
    proof -
      from r mem have m: "tabs ! nat selectedIndex \<in> set tabs" by blast
      with nn have n: "tabs ! nat selectedIndex \<noteq> []" by auto
      show ?thesis
        using resolve_rewritten(2) [OF m n] r
        by (simp add: u index_def activeTab_stateless_def initialTab_eq)
    qed
    have c: "url (select_tab_stateless tabs selectedIndex w) = [(''resourceType'', ''undefined'')]
         \<and> activeTab_stateless (url (select_tab_stateless tabs selectedIndex w)) tabs
             = (if ''undefined'' \<in> set tabs then Val ''undefined'' else Val (hd tabs))"
      if r: "\<not> (0 \<le> selectedIndex \<and> selectedIndex < int (length tabs))"
    proof -
      from r have i: "index tabs selectedIndex = Undefined"
        by (simp add: index_def)
      show ?thesis
        using ne
        by (simp add: u i createSearchParams_def activeTab_stateless_def initialTab_def
            index_0)
    qed
    show ?thesis using a b c by blast
  qed
  show ?thesis using first second by blast
qed

theorem handleTabChange_lookup_witness:
  "handleTabChange [''AUTHORIZATION'', ''TENANT'', ''USER''] 1 = [SetActiveTab (Val ''TENANT'')]
   \<and> handleTabChange [''AUTHORIZATION'', ''TENANT'', ''USER''] 3 = [SetActiveTab Undefined]
   \<and> handleTabChange [''AUTHORIZATION'', ''TENANT'', ''USER''] (- 1) = [SetActiveTab Undefined]
   \<and> [''AUTHORIZATION'', ''TENANT'', ''USER''] \<noteq> []
   \<and> [] \<notin> set [''AUTHORIZATION'', ''TENANT'', ''USER'']
   \<and> activeTab_stateless
        (url (select_tab_stateless [''AUTHORIZATION'', ''TENANT'', ''USER''] 1
               (mount_stateless [])))
        [''AUTHORIZATION'', ''TENANT'', ''USER''] = Val ''TENANT''
   \<and> activeTab_stateless
        (url (select_tab_stateless [''AUTHORIZATION'', ''TENANT'', ''USER''] 3
               (mount_stateless [])))
        [''AUTHORIZATION'', ''TENANT'', ''USER''] = Val ''AUTHORIZATION''"
  using handleTabChange_lookup
      [of "[''AUTHORIZATION'', ''TENANT'', ''USER'']" 1 "mount_stateless []"]
    handleTabChange_lookup
      [of "[''AUTHORIZATION'', ''TENANT'', ''USER'']" 3 "mount_stateless []"]
    handleTabChange_lookup
      [of "[''AUTHORIZATION'', ''TENANT'', ''USER'']" "- 1" "mount_stateless []"]
  by (simp add: handleTabChange_stateless_def select_tab_stateless_def apply_calls_def
      mount_stateless_def createSearchParams_def index_def activeTab_stateless_def
      initialTab_def)

end
